theory Spec2Isabelle
  imports Main "HOL-Library.Word"
begin

unbundle bit_operations_syntax

section \<open>The rzchroma driver: data model\<close>

text \<open>
  \<^verbatim>\<open>u8\<close> is an 8-bit unsigned value, \<^verbatim>\<open>size_t\<close> the 64-bit unsigned type of the
  kernel the driver is built for, \<^verbatim>\<open>int\<close> the 32-bit signed type (read with
  \<open>sint\<close>).
\<close>

type_synonym u8 = "8 word"
type_synonym size_t = "64 word"
type_synonym c_int = "32 word"

text \<open>
  The anonymous enum of LED identifiers (lines 30--33). Its enumerators have C type
  \<^verbatim>\<open>int\<close> and are passed to \<^verbatim>\<open>write_attr\<close> as such.
\<close>

definition ATTR_WHEEL_COLOR :: int where
  "ATTR_WHEEL_COLOR = 0x01"

definition ATTR_LOGO_COLOR :: int where
  "ATTR_LOGO_COLOR = 0x04"

text \<open>
  The errno numbers the driver returns negated. They are the values of the kernel's
  \<^verbatim>\<open>errno-base.h\<close>.
\<close>

definition EIO :: int where
  "EIO = 5"

definition ENOMEM :: int where
  "ENOMEM = 12"

definition EINVAL :: int where
  "EINVAL = 22"

text \<open>
  \<^verbatim>\<open>struct rzchroma_report\<close> (lines 36--47). Every member is a \<^verbatim>\<open>u8\<close> or an array
  of \<^verbatim>\<open>u8\<close>, so the structure has no padding and its size is the sum of its members:
  7 + 80 + 2 = 89 bytes. The member \<^verbatim>\<open>_reserved\<close> is called \<open>reserved\<close> here.
\<close>

record rzchroma_report =
  status :: u8
  transaction_id :: u8
  remaining_packets :: u8
  protocol_type :: u8
  args_len :: u8
  cmd_class :: u8
  cmd_id :: u8
  args :: "u8 list"
  crc :: u8
  reserved :: u8

definition sizeof_report :: size_t where
  "sizeof_report = 89"

text \<open>
  The object representation that the cast \<^verbatim>\<open>(u8 *)report\<close> reads and that
  \<^verbatim>\<open>usb_control_msg\<close> transmits: the members in declaration order.
\<close>

definition report_bytes :: "rzchroma_report \<Rightarrow> u8 list" where
  "report_bytes r =
     [status r, transaction_id r, remaining_packets r, protocol_type r,
      args_len r, cmd_class r, cmd_id r] @ args r @ [crc r, reserved r]"

text \<open>What \<^verbatim>\<open>kzalloc\<close> hands out on success: a report whose 89 bytes are all zero.\<close>

definition kzalloc_report :: rzchroma_report where
  "kzalloc_report =
     \<lparr>status = 0, transaction_id = 0, remaining_packets = 0, protocol_type = 0,
      args_len = 0, cmd_class = 0, cmd_id = 0, args = replicate 80 0,
      crc = 0, reserved = 0\<rparr>"

section \<open>The checksum\<close>

text \<open>
  A read outside the buffer a pointer refers to has no defined behaviour in C; the model
  stops there with a fault instead of inventing a value.
\<close>

datatype fault = OutOfBounds

text \<open>
  \<^verbatim>\<open>report_crc\<close> (lines 58--64):
  \<^verbatim>\<open>
    u8 i, crc = 0;
    for (i = 2; i < count - 2; i++)
        crc ^= data[i];
    return crc;
  \<close>
  The counter \<^verbatim>\<open>i\<close> is a \<^verbatim>\<open>u8\<close>, so \<^verbatim>\<open>i++\<close> wraps from 255 to 0. In the test
  \<^verbatim>\<open>i < count - 2\<close> the counter is converted to \<^verbatim>\<open>size_t\<close> and the subtraction is
  unsigned: it wraps for \<^verbatim>\<open>count < 2\<close>. The bytes are read as raw 8-bit values: whatever
  the signedness of \<^verbatim>\<open>char\<close>, the assignment back to the \<^verbatim>\<open>u8\<close> accumulator keeps
  the low eight bits of the exclusive or. The loop need not terminate, so it lives in
  the option monad: \<open>None\<close> is a run that never returns. The local variable
  \<^verbatim>\<open>crc\<close> is called \<open>acc\<close>, since \<open>crc\<close> is the report's member.
\<close>

partial_function (option) report_crc_loop ::
  "u8 list \<Rightarrow> size_t \<Rightarrow> u8 \<Rightarrow> u8 \<Rightarrow> (fault + u8) option" where
  "report_crc_loop data count i acc =
     (if (ucast i :: size_t) < count - 2
      then (if unat i < length data
            then report_crc_loop data count (i + 1) (acc XOR data ! unat i)
            else Some (Inl OutOfBounds))
      else Some (Inr acc))"

definition report_crc :: "u8 list \<Rightarrow> size_t \<Rightarrow> (fault + u8) option" where
  "report_crc data count = report_crc_loop data count 2 0"

text \<open>
  The specification's wording of the checksum: the exclusive or of the bytes at the
  indices \<open>lo \<le> i < hi\<close>.
\<close>

definition xor_window :: "u8 list \<Rightarrow> nat \<Rightarrow> nat \<Rightarrow> u8" where
  "xor_window data lo hi = fold (\<lambda>j c. c XOR data ! j) [lo..<hi] 0"

section \<open>Writing an attribute\<close>

text \<open>
  What the kernel decides for one call of \<^verbatim>\<open>write_attr\<close>: whether \<^verbatim>\<open>kzalloc\<close>
  succeeds, the byte \<^verbatim>\<open>get_random_bytes\<close> delivers, and the value
  \<^verbatim>\<open>usb_control_msg\<close> returns for the bytes it is given. The other arguments of that
  call (pipe, request, request type, value, index, timeout) are constants of the kernel
  headers; the size is always \<^verbatim>\<open>sizeof(struct rzchroma_report)\<close>.
\<close>

record kernel =
  kzalloc_ok :: bool
  random_byte :: u8
  usb_control_msg :: "u8 list \<Rightarrow> c_int"

text \<open>The calls into the kernel that a run makes, in order.\<close>

datatype event =
    Kzalloc
  | GetRandomBytes
  | UsbControlMsg "u8 list"
  | Kfree

text \<open>
  Lines 99--111 of \<^verbatim>\<open>write_attr\<close>: the zeroed report is filled in. The assignment
  \<^verbatim>\<open>report->args[1] = attr_id\<close> converts the \<^verbatim>\<open>int\<close> to \<^verbatim>\<open>u8\<close>.
\<close>

definition fill_report :: "int \<Rightarrow> u8 \<Rightarrow> u8 \<Rightarrow> u8 \<Rightarrow> u8 \<Rightarrow> rzchroma_report" where
  "fill_report attr_id tid r g b =
     (let report = kzalloc_report;
          report = report\<lparr>cmd_class := 0x03\<rparr>;
          report = report\<lparr>cmd_id := 0x01\<rparr>;
          report = report\<lparr>transaction_id := tid\<rparr>;
          report = report\<lparr>args_len := 5\<rparr>;
          report = report\<lparr>args := (args report)[0 := 1]\<rparr>;
          report = report\<lparr>args := (args report)[1 := word_of_int attr_id]\<rparr>;
          report = report\<lparr>args := (args report)[2 := r]\<rparr>;
          report = report\<lparr>args := (args report)[3 := g]\<rparr>;
          report = report\<lparr>args := (args report)[4 := b]\<rparr>
      in report)"

text \<open>
  Lines 99--113: the filled report with its checksum stored (line 113 calls
  \<^verbatim>\<open>report_crc\<close> on the report's bytes with \<^verbatim>\<open>sizeof(struct rzchroma_report)\<close>).
\<close>

definition build_report ::
  "int \<Rightarrow> u8 \<Rightarrow> u8 \<Rightarrow> u8 \<Rightarrow> u8 \<Rightarrow> (fault + rzchroma_report) option" where
  "build_report attr_id tid r g b =
     (let report = fill_report attr_id tid r g b
      in case report_crc (report_bytes report) sizeof_report of
           None \<Rightarrow> None
         | Some (Inl f) \<Rightarrow> Some (Inl f)
         | Some (Inr c) \<Rightarrow> Some (Inr (report\<lparr>crc := c\<rparr>)))"

text \<open>
  \<^verbatim>\<open>write_attr\<close> (lines 77--137). The result is the value returned (an
  \<^verbatim>\<open>ssize_t\<close>, as an integer) with the kernel calls made. \<^verbatim>\<open>pr_info\<close> only logs
  and is left out. The buffer \<open>buf\<close> is read at the indices 0, 1 and 2 whatever its
  length; a buffer shorter than that is a fault.
\<close>

definition write_attr ::
  "int \<Rightarrow> kernel \<Rightarrow> u8 list \<Rightarrow> size_t \<Rightarrow> (fault + int \<times> event list) option" where
  "write_attr attr_id k buf count =
     (if count \<noteq> 3 then Some (Inr (- EINVAL, []))
      else if \<not> kzalloc_ok k then Some (Inr (- ENOMEM, [Kzalloc]))
      else if length buf < 3 then Some (Inl OutOfBounds)
      else
        case build_report attr_id (random_byte k) (buf ! 0) (buf ! 1) (buf ! 2) of
          None \<Rightarrow> None
        | Some (Inl f) \<Rightarrow> Some (Inl f)
        | Some (Inr report) \<Rightarrow>
            let rc = usb_control_msg k (report_bytes report);
                trace = [Kzalloc, GetRandomBytes, UsbControlMsg (report_bytes report), Kfree]
            in if (scast rc :: size_t) \<noteq> sizeof_report
               then Some (Inr (if sint rc < 0 then sint rc else - EIO, trace))
               else Some (Inr (sint count, trace)))"

text \<open>The two sysfs store callbacks (lines 150--155 and 168--173).\<close>

definition rzchroma_attr_write_logo_color ::
  "kernel \<Rightarrow> u8 list \<Rightarrow> size_t \<Rightarrow> (fault + int \<times> event list) option" where
  "rzchroma_attr_write_logo_color k buf count = write_attr ATTR_LOGO_COLOR k buf count"

definition rzchroma_attr_write_wheel_color ::
  "kernel \<Rightarrow> u8 list \<Rightarrow> size_t \<Rightarrow> (fault + int \<times> event list) option" where
  "rzchroma_attr_write_wheel_color k buf count = write_attr ATTR_WHEEL_COLOR k buf count"


section \<open>The checksum loop in closed form\<close>

lemma unat_ucast_u8: "unat (ucast (i :: u8) :: size_t) = unat i"
proof -
  have "unat i < 2 ^ 8" using unsigned_less [of i] by simp
  then have "unat i < 2 ^ 64" by simp
  then show ?thesis by (simp add: unsigned_ucast_eq take_bit_nat_eq_self)
qed

lemma ucast_u8_less:
  fixes i :: u8 and m :: size_t
  shows "(ucast i :: size_t) < m \<longleftrightarrow> unat i < unat m"
  by (simp add: word_less_nat_alt unat_ucast_u8)

lemma unat_of_nat_u8: "k \<le> 255 \<Longrightarrow> unat (of_nat k :: u8) = k"
  by (simp add: unat_of_nat take_bit_nat_eq_self)

text \<open>
  When \<open>count - 2\<close> is at most 255 the counter reaches it: the loop started at \<open>k\<close>
  returns the accumulated exclusive or, unless it has to read behind the buffer first.
\<close>

lemma report_crc_loop_run:
  assumes n: "n = unat (count - 2)" and le: "n \<le> 255" and k255: "k \<le> 255"
  shows "report_crc_loop data count (of_nat k) acc =
      (if n \<le> k \<or> n \<le> length data
       then Some (Inr (fold (\<lambda>j c. c XOR data ! j) [k..<n] acc))
       else Some (Inl OutOfBounds))"
  using k255
proof (induction "n - k" arbitrary: k acc)
  case 0
  then have kn: "n \<le> k" by simp
  have uk: "unat (of_nat k :: u8) = k" using 0 by (simp add: unat_of_nat_u8)
  have test: "\<not> (ucast (of_nat k :: u8) :: size_t) < count - 2"
    using kn uk n by (simp add: ucast_u8_less)
  have "report_crc_loop data count (of_nat k) acc = Some (Inr acc)"
    using test by (subst report_crc_loop.simps) (simp only: if_False)
  then show ?case using kn by simp
next
  case (Suc d)
  then have k: "k < n" "d = n - Suc k" "Suc k \<le> 255" using le by simp_all
  have uk: "unat (of_nat k :: u8) = k" using Suc.prems by (simp add: unat_of_nat_u8)
  have test: "(ucast (of_nat k :: u8) :: size_t) < count - 2"
    using k n uk by (simp add: ucast_u8_less)
  have step: "(of_nat k :: u8) + 1 = of_nat (Suc k)" by simp
  show ?case
  proof (cases "k < length data")
    case True
    have "report_crc_loop data count (of_nat k) acc =
            report_crc_loop data count (of_nat (Suc k)) (acc XOR data ! k)"
      using test True uk by (subst report_crc_loop.simps) (simp only: step if_True)
    also have "\<dots> = (if n \<le> Suc k \<or> n \<le> length data
       then Some (Inr (fold (\<lambda>j c. c XOR data ! j) [Suc k..<n] (acc XOR data ! k)))
       else Some (Inl OutOfBounds))"
      using Suc.hyps(1) [OF k(2) k(3)] .
    also have "\<dots> = (if n \<le> k \<or> n \<le> length data
       then Some (Inr (fold (\<lambda>j c. c XOR data ! j) [k..<n] acc))
       else Some (Inl OutOfBounds))"
      using k True by (auto simp: upt_conv_Cons)
    finally show ?thesis .
  next
    case False
    have "report_crc_loop data count (of_nat k) acc = Some (Inl OutOfBounds)"
      using test False uk by (subst report_crc_loop.simps) simp
    then show ?thesis using k False by simp
  qed
qed

text \<open>
  The unsigned subtraction \<^verbatim>\<open>count - 2\<close>: exact from 2 on, wrapped to a value far
  above 255 below.
\<close>

lemma unat_count_minus_2:
  fixes count :: size_t
  shows "2 \<le> unat count \<Longrightarrow> unat (count - 2) = unat count - 2"
  by (simp add: unat_sub word_le_nat_alt)

lemma unat_count_minus_2_wrap:
  fixes count :: size_t
  assumes "unat count < 2"
  shows "256 \<le> unat (count - 2)"
proof -
  have "unat count = 0 \<or> unat count = 1" using assms by arith
  then have "count = 0 \<or> count = 1"
    by (auto simp: word_unat_eq_iff)
  then show ?thesis by (auto simp: unsigned_minus_1_eq_mask mask_eq_exp_minus_1)
qed

text \<open>
  When \<open>count - 2\<close> exceeds 255 the loop test holds for every value of the 8-bit
  counter: the loop runs forever on a buffer whose 256 indexable bytes all exist, and
  runs off the end of a shorter one.
\<close>

lemma no_exit:
  fixes count :: size_t and i :: u8
  assumes "256 \<le> unat (count - 2)"
  shows "(ucast i :: size_t) < count - 2"
proof -
  have "unat i < 2 ^ 8" using unsigned_less [of i] by simp
  then show ?thesis using assms by (simp add: ucast_u8_less)
qed

lemma report_crc_loop_diverges:
  assumes big: "256 \<le> unat (count - 2)" and len: "256 \<le> length data"
  shows "report_crc_loop data count i acc = None"
proof -
  have "\<not> (256 \<le> unat (count - 2) \<and> 256 \<le> length data)"
    if "report_crc_loop data count i acc = Some y" for y
    using that
  proof (rule report_crc_loop.raw_induct
      [rotated, where P = "\<lambda>data count i acc y. \<not> (256 \<le> unat (count - 2) \<and> 256 \<le> length data)"])
    fix loop :: "u8 list \<Rightarrow> size_t \<Rightarrow> u8 \<Rightarrow> u8 \<Rightarrow> (fault + u8) option"
    fix data count i acc y
    assume 1: "\<And>data count i acc y. loop data count i acc = Some y \<Longrightarrow>
                 \<not> (256 \<le> unat (count - 2) \<and> 256 \<le> length data)"
      "(if (ucast i :: size_t) < count - 2
        then if unat i < length data
             then loop data count (i + 1) (acc XOR data ! unat i)
             else Some (Inl OutOfBounds)
        else Some (Inr acc)) = Some y"
    show "\<not> (256 \<le> unat (count - 2) \<and> 256 \<le> length data)"
    proof
      assume h: "256 \<le> unat (count - 2) \<and> 256 \<le> length data"
      have "unat i < 2 ^ 8" using unsigned_less [of i] by simp
      then have "unat i < length data" using h by simp
      moreover have "(ucast i :: size_t) < count - 2" using h by (simp add: no_exit)
      ultimately have "loop data count (i + 1) (acc XOR data ! unat i) = Some y"
        using 1(2) by simp
      from 1(1) [OF this] h show False by simp
    qed
  qed
  then show ?thesis using big len by (cases "report_crc_loop data count i acc") auto
qed

lemma report_crc_loop_overrun:
  assumes big: "256 \<le> unat (count - 2)" and len: "length data < 256"
  shows "report_crc_loop data count i acc = Some (Inl OutOfBounds)"
proof (induction "length data - unat i" arbitrary: i acc)
  case 0
  then have "\<not> unat i < length data" by simp
  then show ?case
    using no_exit [OF big, of i] by (subst report_crc_loop.simps) simp
next
  case (Suc d)
  then have lt: "unat i < length data" by simp
  then have "unat i + 1 < 2 ^ 8" using len by simp
  then have "unat (i + 1) = unat i + 1"
    using unat_add_lem [of i 1] by simp
  then have "d = length data - unat (i + 1)" using Suc.hyps(2) by simp
  from Suc.hyps(1) [OF this]
  show ?case
    using no_exit [OF big, of i] lt by (subst report_crc_loop.simps) simp
qed

section \<open>What the checksum function returns\<close>

text \<open>
  Every case of \<^verbatim>\<open>report_crc\<close>: a checksum when \<open>2 \<le> count \<le> 257\<close> and the
  window lies inside the buffer, a read behind the buffer when it does not, and no
  return at all when \<open>count - 2\<close> is beyond the reach of the 8-bit counter.
\<close>

lemma report_crc_cases:
  "report_crc data count =
     (if 2 \<le> unat count \<and> unat count \<le> 257
      then (if unat count \<le> 4 \<or> unat count - 2 \<le> length data
            then Some (Inr (xor_window data 2 (unat count - 2)))
            else Some (Inl OutOfBounds))
      else if 256 \<le> length data then None else Some (Inl OutOfBounds))"
proof (cases "2 \<le> unat count \<and> unat count \<le> 257")
  case True
  then have c: "2 \<le> unat count" "unat count \<le> 257" by simp_all
  have n: "unat count - 2 = unat (count - 2)" using c by (simp add: unat_count_minus_2)
  have le: "unat count - 2 \<le> 255" using c by arith
  have two: "(2 :: u8) = of_nat 2" by simp
  have "report_crc data count = report_crc_loop data count (of_nat 2) 0"
    by (simp only: report_crc_def two)
  also have "\<dots> = (if unat count - 2 \<le> 2 \<or> unat count - 2 \<le> length data
       then Some (Inr (fold (\<lambda>j c. c XOR data ! j) [2..<unat count - 2] 0))
       else Some (Inl OutOfBounds))"
    by (rule report_crc_loop_run [OF n le]) simp
  finally show ?thesis using True by (auto simp: xor_window_def)
next
  case False
  have big: "256 \<le> unat (count - 2)"
  proof (cases "unat count < 2")
    case True
    then show ?thesis by (rule unat_count_minus_2_wrap)
  next
    case False
    then have "257 < unat count" using \<open>\<not> (2 \<le> unat count \<and> unat count \<le> 257)\<close> by simp
    then show ?thesis by (simp add: unat_count_minus_2)
  qed
  show ?thesis
    using False report_crc_loop_diverges [OF big] report_crc_loop_overrun [OF big]
    by (simp add: report_crc_def)
qed

lemma map_nth_upt_take_drop:
  "hi \<le> length xs \<Longrightarrow> map ((!) xs) [lo..<hi] = take (hi - lo) (drop lo xs)"
  by (rule nth_equalityI) simp_all

lemma xor_window_take_drop:
  assumes "hi \<le> length data"
  shows "xor_window data lo hi = fold (\<lambda>x c. c XOR x) (take (hi - lo) (drop lo data)) 0"
proof -
  have "xor_window data lo hi = fold (\<lambda>x c. c XOR x) (map ((!) data) [lo..<hi]) 0"
    by (simp add: xor_window_def fold_map comp_def)
  then show ?thesis using assms by (simp add: map_nth_upt_take_drop)
qed

lemma length_report_bytes: "length (report_bytes r) = length (args r) + 9"
  by (simp add: report_bytes_def)

lemma xor_window_report_bytes:
  assumes "length (args r) = 80"
  shows "xor_window (report_bytes r) 2 87 =
     fold (\<lambda>x c. c XOR x)
       ([remaining_packets r, protocol_type r, args_len r, cmd_class r, cmd_id r] @ args r) 0"
proof -
  have "take 85 (drop 2 (report_bytes r)) =
      [remaining_packets r, protocol_type r, args_len r, cmd_class r, cmd_id r] @ args r"
    using assms by (simp add: report_bytes_def)
  then show ?thesis
    using assms by (simp add: xor_window_take_drop length_report_bytes)
qed

text \<open>
  C1: for a count between 2 and 257 and a buffer that holds \<open>count\<close> bytes,
  \<^verbatim>\<open>report_crc\<close> returns the exclusive or of the bytes at the indices
  \<open>2 \<le> i < count - 2\<close>. For the 89-byte report these are the indices 2 to 86: the
  members \<open>remaining_packets\<close>, \<open>protocol_type\<close>, \<open>args_len\<close>, \<open>cmd_class\<close>,
  \<open>cmd_id\<close> and \<open>args\<close>, without \<open>status\<close> (index 0), \<open>transaction_id\<close>
  (index 1), \<open>crc\<close> (index 87) and \<open>reserved\<close> (index 88).
\<close>

theorem report_crc_xor_window:
  "(2 \<le> unat count \<and> unat count \<le> 257 \<and> unat count \<le> length data \<longrightarrow>
      report_crc data count = Some (Inr (xor_window data 2 (unat count - 2)))) \<and>
   (length data = 89 \<longrightarrow>
      report_crc data sizeof_report = Some (Inr (xor_window data 2 87))) \<and>
   (length (args r) = 80 \<longrightarrow>
      report_crc (report_bytes r) sizeof_report =
        Some (Inr (fold (\<lambda>x c. c XOR x)
          ([remaining_packets r, protocol_type r, args_len r, cmd_class r, cmd_id r] @ args r) 0)))"
proof (intro conjI impI)
  assume "2 \<le> unat count \<and> unat count \<le> 257 \<and> unat count \<le> length data"
  then have "2 \<le> unat count" "unat count \<le> 257" "unat count - 2 \<le> length data"
    by arith+
  then show "report_crc data count = Some (Inr (xor_window data 2 (unat count - 2)))"
    by (simp add: report_crc_cases)
next
  assume "length data = 89"
  then show "report_crc data sizeof_report = Some (Inr (xor_window data 2 87))"
    by (simp add: report_crc_cases sizeof_report_def)
next
  assume a: "length (args r) = 80"
  then have "report_crc (report_bytes r) sizeof_report =
      Some (Inr (xor_window (report_bytes r) 2 87))"
    by (simp add: report_crc_cases sizeof_report_def length_report_bytes)
  then show "report_crc (report_bytes r) sizeof_report =
        Some (Inr (fold (\<lambda>x c. c XOR x)
          ([remaining_packets r, protocol_type r, args_len r, cmd_class r, cmd_id r] @ args r) 0))"
    using a by (simp add: xor_window_report_bytes)
qed


theorem report_crc_xor_window_witness:
  "report_crc [9, 8, 7, 6, 5, 4] 6 = Some (Inr 1) \<and>
   report_crc ([0xAA, 0xBB] @ replicate 85 1 @ [0xCC, 0xDD]) sizeof_report = Some (Inr 1) \<and>
   report_crc (report_bytes (fill_report ATTR_LOGO_COLOR 0x5A 0x10 0x20 0x30)) sizeof_report =
     Some (Inr 2)"
proof -
  have a: "xor_window [9, 8, 7, 6, 5, 4] 2 4 = (1 :: u8)"
    by code_simp
  have b: "xor_window ([0xAA, 0xBB] @ replicate 85 1 @ [0xCC, 0xDD]) 2 87 = (1 :: u8)"
    by code_simp
  have c: "length (args (fill_report ATTR_LOGO_COLOR 0x5A 0x10 0x20 0x30)) = 80"
    by (simp add: fill_report_def kzalloc_report_def)
  have d: "fold (\<lambda>x c. c XOR x)
     ([remaining_packets (fill_report ATTR_LOGO_COLOR 0x5A 0x10 0x20 0x30),
       protocol_type (fill_report ATTR_LOGO_COLOR 0x5A 0x10 0x20 0x30),
       args_len (fill_report ATTR_LOGO_COLOR 0x5A 0x10 0x20 0x30),
       cmd_class (fill_report ATTR_LOGO_COLOR 0x5A 0x10 0x20 0x30),
       cmd_id (fill_report ATTR_LOGO_COLOR 0x5A 0x10 0x20 0x30)] @
      args (fill_report ATTR_LOGO_COLOR 0x5A 0x10 0x20 0x30)) 0 = (2 :: u8)"
    by code_simp
  have "report_crc [9, 8, 7, 6, 5, 4] 6 = Some (Inr 1)"
    using report_crc_xor_window [of 6 "[9, 8, 7, 6, 5, 4]"] a by simp
  moreover
  have "report_crc ([0xAA, 0xBB] @ replicate 85 1 @ [0xCC, 0xDD]) sizeof_report = Some (Inr 1)"
    using report_crc_xor_window [of 0 "[0xAA, 0xBB] @ replicate 85 1 @ [0xCC, 0xDD]"] b
    by simp
  moreover
  have "report_crc (report_bytes (fill_report ATTR_LOGO_COLOR 0x5A 0x10 0x20 0x30))
      sizeof_report = Some (Inr 2)"
    using report_crc_xor_window [of 0 "[]" "fill_report ATTR_LOGO_COLOR 0x5A 0x10 0x20 0x30"]
      c d
    by simp
  ultimately show ?thesis by simp
qed


text \<open>
  C10: \<^verbatim>\<open>report_crc\<close> terminates for every count from 2 to 257, and returns a
  checksum when the buffer holds \<open>count\<close> bytes; so it does for the 89 bytes of the
  report. Below 2 and above 257 the test \<^verbatim>\<open>i < count - 2\<close> holds for every value of the
  8-bit counter: no checksum is ever returned, and the loop runs forever on a buffer
  whose 256 indexable bytes all exist (on a shorter one it reads behind the buffer).
\<close>

theorem report_crc_terminates:
  "(2 \<le> unat count \<and> unat count \<le> 257 \<longrightarrow>
      report_crc data count \<noteq> None \<and>
      (unat count \<le> length data \<longrightarrow> (\<exists>c. report_crc data count = Some (Inr c)))) \<and>
   (length data = 89 \<longrightarrow> (\<exists>c. report_crc data sizeof_report = Some (Inr c))) \<and>
   (unat count < 2 \<or> 257 < unat count \<longrightarrow>
      (\<forall>i :: u8. (ucast i :: size_t) < count - 2) \<and>
      (\<forall>c. report_crc data count \<noteq> Some (Inr c)) \<and>
      (256 \<le> length data \<longrightarrow> report_crc data count = None))"
proof (intro conjI impI allI)
  assume "2 \<le> unat count \<and> unat count \<le> 257"
  then show "report_crc data count \<noteq> None"
    by (simp add: report_crc_cases)
next
  assume "2 \<le> unat count \<and> unat count \<le> 257" and "unat count \<le> length data"
  then have "2 \<le> unat count" "unat count \<le> 257" "unat count - 2 \<le> length data"
    by arith+
  then show "\<exists>c. report_crc data count = Some (Inr c)"
    by (simp add: report_crc_cases)
next
  assume "length data = 89"
  then show "\<exists>c. report_crc data sizeof_report = Some (Inr c)"
    by (simp add: report_crc_cases sizeof_report_def)
next
  fix i :: u8
  assume out: "unat count < 2 \<or> 257 < unat count"
  have "256 \<le> unat (count - 2)"
  proof (cases "unat count < 2")
    case True
    then show ?thesis by (rule unat_count_minus_2_wrap)
  next
    case False
    then show ?thesis using out by (simp add: unat_count_minus_2)
  qed
  then show "(ucast i :: size_t) < count - 2" by (rule no_exit)
next
  fix c
  assume "unat count < 2 \<or> 257 < unat count"
  then have "\<not> (2 \<le> unat count \<and> unat count \<le> 257)" by arith
  then have "report_crc data count =
      (if 256 \<le> length data then None else Some (Inl OutOfBounds))"
    by (subst report_crc_cases) (simp only: if_False)
  then show "report_crc data count \<noteq> Some (Inr c)"
    by simp
next
  assume "unat count < 2 \<or> 257 < unat count" and "256 \<le> length data"
  then have "\<not> (2 \<le> unat count \<and> unat count \<le> 257)" and len: "256 \<le> length data"
    by arith+
  then have "report_crc data count =
      (if 256 \<le> length data then None else Some (Inl OutOfBounds))"
    by (subst report_crc_cases) (simp only: if_False)
  then show "report_crc data count = None"
    using len by simp
qed

theorem report_crc_terminates_witness:
  "report_crc (replicate 89 0) sizeof_report \<noteq> None \<and>
   (\<exists>c. report_crc (replicate 257 0) 257 = Some (Inr c)) \<and>
   report_crc (replicate 256 0) 1 = None \<and>
   report_crc (replicate 258 0) 258 = None"
proof -
  have "report_crc (replicate 89 0) sizeof_report \<noteq> None"
    using report_crc_terminates [of 89 "replicate 89 0"] by (simp add: sizeof_report_def)
  moreover have "\<exists>c. report_crc (replicate 257 0) 257 = Some (Inr c)"
    using report_crc_terminates [of 257 "replicate 257 0"] by simp
  moreover have "report_crc (replicate 256 0) 1 = None"
    using report_crc_terminates [of 1 "replicate 256 0"] by simp
  moreover have "report_crc (replicate 258 0) 258 = None"
    using report_crc_terminates [of 258 "replicate 258 0"] by simp
  ultimately show ?thesis by simp
qed

section \<open>Changing one byte of the buffer\<close>

lemma fold_xor_acc:
  fixes g :: "nat \<Rightarrow> u8"
  shows "fold (\<lambda>j c. c XOR g j) js a = a XOR fold (\<lambda>j c. c XOR g j) js 0"
proof (induction js arbitrary: a)
  case Nil
  then show ?case by simp
next
  case (Cons j js)
  show ?case
    using Cons.IH [of "a XOR g j"] Cons.IH [of "g j"] by (simp add: xor.assoc)
qed

lemma xor_window_update_outside:
  assumes "k < lo \<or> hi \<le> k"
  shows "xor_window (data[k := v]) lo hi = xor_window data lo hi"
  unfolding xor_window_def
  using assms by (intro fold_cong) auto

lemma xor_window_split:
  assumes "lo \<le> k" "k < hi"
  shows "xor_window data lo hi = xor_window data lo k XOR data ! k XOR xor_window data (Suc k) hi"
proof -
  have "[lo..<hi] = [lo..<k] @ k # [Suc k..<hi]"
    using assms upt_add_eq_append [of lo k "hi - k"] by (simp add: upt_conv_Cons)
  then show ?thesis
    using fold_xor_acc [of "\<lambda>j. data ! j" "[Suc k..<hi]" "xor_window data lo k XOR data ! k"]
    by (simp add: xor_window_def xor.assoc)
qed

lemma xor_window_update_inside:
  assumes "lo \<le> k" "k < hi" "hi \<le> length data"
  shows "xor_window (data[k := v]) lo hi = xor_window data lo hi XOR (data ! k XOR v)"
proof -
  have "xor_window (data[k := v]) lo hi =
      xor_window data lo k XOR v XOR xor_window data (Suc k) hi"
    using assms
    by (simp add: xor_window_split [of lo k hi "data[k := v]"] xor_window_update_outside)
  then show ?thesis
    using assms by (simp add: xor_window_split [of lo k hi data] ac_simps)
qed

lemma xor_changes:
  fixes w :: u8
  shows "w XOR (a XOR b) = w \<longleftrightarrow> a = b"
  by (metis xor.assoc xor.right_neutral xor_self_eq xor.left_commute)

lemma report_crc_89:
  "length data = 89 \<Longrightarrow> report_crc data sizeof_report = Some (Inr (xor_window data 2 87))"
  by (simp add: report_crc_cases sizeof_report_def)

text \<open>
  C6: on an 89-byte report the checksum is computed, and storing any value at index 0
  (\<open>status\<close>), 87 (\<open>crc\<close>) or 88 (\<open>reserved\<close>) leaves it as it was, while storing a
  different value at one index from 2 to 86 always changes it.
\<close>

theorem report_crc_mutation:
  assumes "length data = 89"
  shows "(\<exists>c. report_crc data sizeof_report = Some (Inr c)) \<and>
         (k \<in> {0, 87, 88} \<longrightarrow>
            report_crc (data[k := v]) sizeof_report = report_crc data sizeof_report) \<and>
         (2 \<le> k \<and> k < 87 \<and> v \<noteq> data ! k \<longrightarrow>
            report_crc (data[k := v]) sizeof_report \<noteq> report_crc data sizeof_report)"
proof (intro conjI impI)
  show "\<exists>c. report_crc data sizeof_report = Some (Inr c)"
    using assms by (simp add: report_crc_89)
next
  assume "k \<in> {0, 87, 88}"
  then have "k < 2 \<or> 87 \<le> k" by auto
  then show "report_crc (data[k := v]) sizeof_report = report_crc data sizeof_report"
    using assms by (simp add: report_crc_89 xor_window_update_outside)
next
  assume k: "2 \<le> k \<and> k < 87 \<and> v \<noteq> data ! k"
  then have "xor_window (data[k := v]) 2 87 = xor_window data 2 87 XOR (data ! k XOR v)"
    using assms by (simp add: xor_window_update_inside)
  then have "xor_window (data[k := v]) 2 87 \<noteq> xor_window data 2 87"
    using k by (auto simp: xor_changes)
  then show "report_crc (data[k := v]) sizeof_report \<noteq> report_crc data sizeof_report"
    using assms by (simp add: report_crc_89)
qed

theorem report_crc_mutation_witness:
  "report_crc ((replicate 89 0)[0 := 5]) sizeof_report = report_crc (replicate 89 0) sizeof_report \<and>
   report_crc ((replicate 89 0)[87 := 5]) sizeof_report = report_crc (replicate 89 0) sizeof_report \<and>
   report_crc ((replicate 89 0)[88 := 5]) sizeof_report = report_crc (replicate 89 0) sizeof_report \<and>
   report_crc ((replicate 89 0)[2 := 5]) sizeof_report \<noteq> report_crc (replicate 89 0) sizeof_report \<and>
   report_crc ((replicate 89 0)[86 := 5]) sizeof_report \<noteq> report_crc (replicate 89 0) sizeof_report"
proof -
  have len: "length (replicate 89 (0 :: u8)) = 89" by simp
  show ?thesis
    using report_crc_mutation [OF len, of 0 5] report_crc_mutation [OF len, of 87 5]
      report_crc_mutation [OF len, of 88 5] report_crc_mutation [OF len, of 2 5]
      report_crc_mutation [OF len, of 86 5]
    by simp
qed

section \<open>The report that write\_attr builds and sends\<close>

text \<open>
  The comparison \<^verbatim>\<open>rc != sizeof(struct rzchroma_report)\<close> converts the \<^verbatim>\<open>int\<close> to
  \<^verbatim>\<open>size_t\<close>; a negative \<open>rc\<close> becomes a large value, never 89.
\<close>

lemma scast_rc_eq_sizeof:
  fixes rc :: c_int
  shows "(scast rc :: size_t) = sizeof_report \<longleftrightarrow> sint rc = 89"
proof
  assume "(scast rc :: size_t) = sizeof_report"
  then have "sint (scast rc :: size_t) = sint (89 :: size_t)"
    by (simp add: sizeof_report_def)
  moreover have "sint (scast rc :: size_t) = sint rc"
    by (rule sint_up_scast) (simp add: is_up)
  ultimately show "sint rc = 89" by simp
next
  assume "sint rc = 89"
  then have "sint rc = sint (89 :: c_int)" by simp
  then have "rc = 89" by (rule signed_word_eqI)
  then show "(scast rc :: size_t) = sizeof_report"
    by (simp add: sizeof_report_def)
qed

lemma replicate_80_updates:
  "(replicate 80 (0 :: u8))[0 := x0, 1 := x1, 2 := x2, 3 := x3, 4 := x4] =
     [x0, x1, x2, x3, x4] @ replicate 75 0"
  by (simp add: numeral_eq_Suc)

lemma fill_report_eq:
  "fill_report attr_id tid r g b =
     \<lparr>status = 0, transaction_id = tid, remaining_packets = 0, protocol_type = 0,
      args_len = 5, cmd_class = 0x03, cmd_id = 0x01,
      args = [1, word_of_int attr_id, r, g, b] @ replicate 75 0,
      crc = 0, reserved = 0\<rparr>"
  using replicate_80_updates [of 1 "word_of_int attr_id" r g b]
  by (simp add: fill_report_def kzalloc_report_def)

lemma length_args_fill_report: "length (args (fill_report attr_id tid r g b)) = 80"
  by (simp add: fill_report_eq)

lemma build_report_eq:
  "build_report attr_id tid r g b =
     Some (Inr ((fill_report attr_id tid r g b)
       \<lparr>crc := xor_window (report_bytes (fill_report attr_id tid r g b)) 2 87\<rparr>))"
  by (simp add: build_report_def Let_def report_crc_89 length_report_bytes
      length_args_fill_report)

lemma write_attr_sends:
  assumes "kzalloc_ok k" "3 \<le> length buf"
    and "build_report attr_id (random_byte k) (buf ! 0) (buf ! 1) (buf ! 2) = Some (Inr report)"
  shows "write_attr attr_id k buf 3 =
     Some (Inr (if sint (usb_control_msg k (report_bytes report)) = 89 then 3
                else if sint (usb_control_msg k (report_bytes report)) < 0
                     then sint (usb_control_msg k (report_bytes report))
                     else - EIO,
                [Kzalloc, GetRandomBytes, UsbControlMsg (report_bytes report), Kfree]))"
  using assms by (simp add: write_attr_def Let_def scast_rc_eq_sizeof)

section \<open>The claims about write\_attr\<close>

text \<open>
  C2: for every colour \<open>(r, g, b)\<close>, a write of the three bytes to the logo attribute
  (with the allocation succeeding) builds and sends a report with \<open>cmd_class = 0x03\<close>,
  \<open>cmd_id = 0x01\<close>, \<open>args_len = 5\<close>, \<open>args\<close> equal to 1, 0x04, r, g, b followed by 75
  zero bytes, and 89 bytes in all.
\<close>

theorem logo_report_shape:
  assumes "kzalloc_ok k"
  shows "\<exists>ret report.
     rzchroma_attr_write_logo_color k [r, g, b] 3 =
       Some (Inr (ret, [Kzalloc, GetRandomBytes, UsbControlMsg (report_bytes report), Kfree])) \<and>
     build_report ATTR_LOGO_COLOR (random_byte k) r g b = Some (Inr report) \<and>
     cmd_class report = 0x03 \<and> cmd_id report = 0x01 \<and> args_len report = 5 \<and>
     args report = [1, 0x04, r, g, b] @ replicate 75 0 \<and>
     length (report_bytes report) = 89"
proof -
  let ?report = "(fill_report ATTR_LOGO_COLOR (random_byte k) r g b)
       \<lparr>crc := xor_window (report_bytes (fill_report ATTR_LOGO_COLOR (random_byte k) r g b)) 2 87\<rparr>"
  have b: "build_report ATTR_LOGO_COLOR (random_byte k) r g b = Some (Inr ?report)"
    by (rule build_report_eq)
  have "build_report ATTR_LOGO_COLOR (random_byte k) ([r, g, b] ! 0) ([r, g, b] ! 1)
      ([r, g, b] ! 2) = Some (Inr ?report)"
    using b by simp
  from write_attr_sends [OF assms _ this]
  have "\<exists>ret. rzchroma_attr_write_logo_color k [r, g, b] 3 =
       Some (Inr (ret, [Kzalloc, GetRandomBytes, UsbControlMsg (report_bytes ?report), Kfree]))"
    by (simp add: rzchroma_attr_write_logo_color_def)
  moreover have "cmd_class ?report = 0x03 \<and> cmd_id ?report = 0x01 \<and> args_len ?report = 5 \<and>
     args ?report = [1, 0x04, r, g, b] @ replicate 75 0 \<and> length (report_bytes ?report) = 89"
    by (simp add: fill_report_eq ATTR_LOGO_COLOR_def length_report_bytes)
  ultimately show ?thesis using b by blast
qed


theorem logo_report_shape_witness:
  "kzalloc_ok \<lparr>kzalloc_ok = True, random_byte = 0x5A, usb_control_msg = \<lambda>_. 89\<rparr> \<and>
   (\<exists>ret. rzchroma_attr_write_logo_color
      \<lparr>kzalloc_ok = True, random_byte = 0x5A, usb_control_msg = \<lambda>_. 89\<rparr>
      [0x10, 0x20, 0x30] 3 =
     Some (Inr (ret, [Kzalloc, GetRandomBytes,
       UsbControlMsg ([0, 0x5A, 0, 0, 5, 3, 1, 1, 4, 0x10, 0x20, 0x30] @ replicate 75 0 @ [2, 0]),
       Kfree])))"
proof -
  let ?k = "\<lparr>kzalloc_ok = True, random_byte = 0x5A, usb_control_msg = \<lambda>_. 89\<rparr>"
  have ok: "kzalloc_ok ?k" by simp
  obtain ret report where
    w: "rzchroma_attr_write_logo_color ?k [0x10, 0x20, 0x30] 3 =
       Some (Inr (ret, [Kzalloc, GetRandomBytes, UsbControlMsg (report_bytes report), Kfree]))"
    and b: "build_report ATTR_LOGO_COLOR (random_byte ?k) 0x10 0x20 0x30 = Some (Inr report)"
    using logo_report_shape [of ?k "0x10" "0x20" "0x30", OF ok] by blast
  have x: "xor_window (report_bytes (fill_report ATTR_LOGO_COLOR 0x5A 0x10 0x20 0x30)) 2 87 = 2"
    by code_simp
  have "report_bytes report =
      [0, 0x5A, 0, 0, 5, 3, 1, 1, 4, 0x10, 0x20, 0x30] @ replicate 75 0 @ [2, 0]"
    using b by (simp add: build_report_eq x) (auto simp: fill_report_eq report_bytes_def ATTR_LOGO_COLOR_def)
  then show ?thesis using w ok by simp
qed

text \<open>
  C9: for every colour, a write of the three bytes to the scroll-wheel attribute builds
  and sends a report whose \<open>args[1]\<close> (byte 8 of the report) is 0x01.
\<close>

theorem wheel_target_code:
  assumes "kzalloc_ok k"
  shows "\<exists>ret report.
     rzchroma_attr_write_wheel_color k [r, g, b] 3 =
       Some (Inr (ret, [Kzalloc, GetRandomBytes, UsbControlMsg (report_bytes report), Kfree])) \<and>
     build_report ATTR_WHEEL_COLOR (random_byte k) r g b = Some (Inr report) \<and>
     args report ! 1 = 0x01 \<and> report_bytes report ! 8 = 0x01"
proof -
  let ?report = "(fill_report ATTR_WHEEL_COLOR (random_byte k) r g b)
       \<lparr>crc := xor_window (report_bytes (fill_report ATTR_WHEEL_COLOR (random_byte k) r g b)) 2 87\<rparr>"
  have b: "build_report ATTR_WHEEL_COLOR (random_byte k) r g b = Some (Inr ?report)"
    by (rule build_report_eq)
  have "build_report ATTR_WHEEL_COLOR (random_byte k) ([r, g, b] ! 0) ([r, g, b] ! 1)
      ([r, g, b] ! 2) = Some (Inr ?report)"
    using b by simp
  from write_attr_sends [OF assms _ this]
  have "\<exists>ret. rzchroma_attr_write_wheel_color k [r, g, b] 3 =
       Some (Inr (ret, [Kzalloc, GetRandomBytes, UsbControlMsg (report_bytes ?report), Kfree]))"
    by (simp add: rzchroma_attr_write_wheel_color_def)
  moreover have "args ?report ! 1 = 0x01 \<and> report_bytes ?report ! 8 = 0x01"
    by (simp add: fill_report_eq ATTR_WHEEL_COLOR_def report_bytes_def)
  ultimately show ?thesis using b by blast
qed

theorem wheel_target_code_witness:
  "kzalloc_ok \<lparr>kzalloc_ok = True, random_byte = 0xC3, usb_control_msg = \<lambda>_. 89\<rparr> \<and>
   (\<exists>ret report. rzchroma_attr_write_wheel_color
      \<lparr>kzalloc_ok = True, random_byte = 0xC3, usb_control_msg = \<lambda>_. 89\<rparr>
      [0xFF, 0x80, 0x00] 3 =
       Some (Inr (ret, [Kzalloc, GetRandomBytes, UsbControlMsg (report_bytes report), Kfree])) \<and>
     args report ! 1 = 0x01 \<and> report_bytes report ! 8 = 0x01)"
proof -
  let ?k = "\<lparr>kzalloc_ok = True, random_byte = 0xC3, usb_control_msg = \<lambda>_. 89\<rparr>"
  have ok: "kzalloc_ok ?k" by simp
  show ?thesis
    using wheel_target_code [of ?k "0xFF" "0x80" "0x00", OF ok] ok by blast
qed

lemma write_attr_built:
  assumes "kzalloc_ok k" "3 \<le> length buf"
  shows "\<exists>ret. write_attr attr_id k buf 3 =
     Some (Inr (ret, [Kzalloc, GetRandomBytes,
       UsbControlMsg (report_bytes
         ((fill_report attr_id (random_byte k) (buf ! 0) (buf ! 1) (buf ! 2))
            \<lparr>crc := xor_window (report_bytes
               (fill_report attr_id (random_byte k) (buf ! 0) (buf ! 1) (buf ! 2))) 2 87\<rparr>)),
       Kfree]))"
  using write_attr_sends [OF assms build_report_eq] by blast

text \<open>
  C4: when the number of bytes written is not 3, \<^verbatim>\<open>write_attr\<close> returns
  \<^verbatim>\<open>-EINVAL\<close> and makes no kernel call: nothing is allocated, built or sent. With
  exactly 3 bytes the check passes and encoding proceeds: once the allocation has
  succeeded the report is filled from the three bytes, its checksum is stored, and
  exactly that report is handed to \<^verbatim>\<open>usb_control_msg\<close>, whose result decides the
  value returned; when the allocation fails the run ends there with \<^verbatim>\<open>-ENOMEM\<close>.
\<close>

theorem write_attr_rejects_wrong_count:
  "(count \<noteq> 3 \<longrightarrow> write_attr attr_id k buf count = Some (Inr (- EINVAL, []))) \<and>
   (3 \<le> length buf \<and> kzalloc_ok k \<longrightarrow>
      (\<exists>report.
         report =
           (fill_report attr_id (random_byte k) (buf ! 0) (buf ! 1) (buf ! 2))
             \<lparr>crc := xor_window (report_bytes
                (fill_report attr_id (random_byte k) (buf ! 0) (buf ! 1) (buf ! 2))) 2 87\<rparr> \<and>
         build_report attr_id (random_byte k) (buf ! 0) (buf ! 1) (buf ! 2) =
           Some (Inr report) \<and>
         write_attr attr_id k buf 3 =
           Some (Inr (if sint (usb_control_msg k (report_bytes report)) = 89 then 3
                      else if sint (usb_control_msg k (report_bytes report)) < 0
                           then sint (usb_control_msg k (report_bytes report))
                           else - EIO,
                      [Kzalloc, GetRandomBytes, UsbControlMsg (report_bytes report), Kfree])))) \<and>
   (\<not> kzalloc_ok k \<longrightarrow> write_attr attr_id k buf 3 = Some (Inr (- ENOMEM, [Kzalloc])))"
proof (intro conjI impI)
  assume "count \<noteq> 3"
  then show "write_attr attr_id k buf count = Some (Inr (- EINVAL, []))"
    by (simp add: write_attr_def)
next
  assume h: "3 \<le> length buf \<and> kzalloc_ok k"
  let ?filled = "fill_report attr_id (random_byte k) (buf ! 0) (buf ! 1) (buf ! 2)"
  let ?report = "?filled\<lparr>crc := xor_window (report_bytes ?filled) 2 87\<rparr>"
  have b: "build_report attr_id (random_byte k) (buf ! 0) (buf ! 1) (buf ! 2) =
      Some (Inr ?report)"
    by (rule build_report_eq)
  have ok: "kzalloc_ok k" and len: "3 \<le> length buf" using h by simp_all
  have w: "write_attr attr_id k buf 3 =
           Some (Inr (if sint (usb_control_msg k (report_bytes ?report)) = 89 then 3
                      else if sint (usb_control_msg k (report_bytes ?report)) < 0
                           then sint (usb_control_msg k (report_bytes ?report))
                           else - EIO,
                      [Kzalloc, GetRandomBytes, UsbControlMsg (report_bytes ?report), Kfree]))"
    by (rule write_attr_sends [OF ok len b])
  show "\<exists>report.
         report = ?report \<and>
         build_report attr_id (random_byte k) (buf ! 0) (buf ! 1) (buf ! 2) =
           Some (Inr report) \<and>
         write_attr attr_id k buf 3 =
           Some (Inr (if sint (usb_control_msg k (report_bytes report)) = 89 then 3
                      else if sint (usb_control_msg k (report_bytes report)) < 0
                           then sint (usb_control_msg k (report_bytes report))
                           else - EIO,
                      [Kzalloc, GetRandomBytes, UsbControlMsg (report_bytes report), Kfree]))"
    using b w by blast
next
  assume "\<not> kzalloc_ok k"
  then show "write_attr attr_id k buf 3 = Some (Inr (- ENOMEM, [Kzalloc]))"
    by (simp add: write_attr_def)
qed

theorem write_attr_rejects_wrong_count_witness:
  "write_attr ATTR_LOGO_COLOR \<lparr>kzalloc_ok = True, random_byte = 7, usb_control_msg = \<lambda>_. 89\<rparr>
     [0x10, 0x20] 2 = Some (Inr (- 22, [])) \<and>
   write_attr ATTR_WHEEL_COLOR \<lparr>kzalloc_ok = True, random_byte = 7, usb_control_msg = \<lambda>_. 89\<rparr>
     [0x10, 0x20, 0x30, 0x40] 4 = Some (Inr (- 22, [])) \<and>
   write_attr ATTR_LOGO_COLOR \<lparr>kzalloc_ok = True, random_byte = 7, usb_control_msg = \<lambda>_. 89\<rparr>
     [0x10, 0x20, 0x30] 3 =
     Some (Inr (3, [Kzalloc, GetRandomBytes,
       UsbControlMsg ([0, 7, 0, 0, 5, 3, 1, 1, 4, 0x10, 0x20, 0x30] @ replicate 75 0 @ [2, 0]),
       Kfree])) \<and>
   write_attr ATTR_LOGO_COLOR \<lparr>kzalloc_ok = False, random_byte = 7, usb_control_msg = \<lambda>_. 89\<rparr>
     [0x10, 0x20, 0x30] 3 = Some (Inr (- 12, [Kzalloc]))"
proof -
  let ?k = "\<lparr>kzalloc_ok = True, random_byte = 7, usb_control_msg = \<lambda>_. 89\<rparr>"
  let ?n = "\<lparr>kzalloc_ok = False, random_byte = 7, usb_control_msg = \<lambda>_. 89\<rparr>"
  have "write_attr ATTR_LOGO_COLOR ?k [0x10, 0x20] 2 = Some (Inr (- 22, []))"
    using write_attr_rejects_wrong_count [of 2 ATTR_LOGO_COLOR ?k "[0x10, 0x20]"]
    by (simp add: EINVAL_def)
  moreover
  have "write_attr ATTR_WHEEL_COLOR ?k [0x10, 0x20, 0x30, 0x40] 4 = Some (Inr (- 22, []))"
    using write_attr_rejects_wrong_count [of 4 ATTR_WHEEL_COLOR ?k "[0x10, 0x20, 0x30, 0x40]"]
    by (simp add: EINVAL_def)
  moreover
  have "write_attr ATTR_LOGO_COLOR ?k [0x10, 0x20, 0x30] 3 =
     Some (Inr (3, [Kzalloc, GetRandomBytes,
       UsbControlMsg ([0, 7, 0, 0, 5, 3, 1, 1, 4, 0x10, 0x20, 0x30] @ replicate 75 0 @ [2, 0]),
       Kfree]))"
  proof -
    have x: "xor_window (report_bytes (fill_report ATTR_LOGO_COLOR 7 0x10 0x20 0x30)) 2 87 = 2"
      by code_simp
    have bytes: "report_bytes ((fill_report ATTR_LOGO_COLOR 7 0x10 0x20 0x30)\<lparr>crc := 2\<rparr>) =
        [0, 7, 0, 0, 5, 3, 1, 1, 4, 0x10, 0x20, 0x30] @ replicate 75 0 @ [2, 0]"
      by (simp add: fill_report_eq report_bytes_def ATTR_LOGO_COLOR_def)
    show ?thesis
      using write_attr_rejects_wrong_count [of 3 ATTR_LOGO_COLOR ?k "[0x10, 0x20, 0x30]"]
      by (simp add: x bytes)
  qed
  moreover
  have "write_attr ATTR_LOGO_COLOR ?n [0x10, 0x20, 0x30] 3 = Some (Inr (- 12, [Kzalloc]))"
    using write_attr_rejects_wrong_count [of 3 ATTR_LOGO_COLOR ?n "[0x10, 0x20, 0x30]"]
    by (simp add: ENOMEM_def)
  ultimately show ?thesis by simp
qed

text \<open>
  C8: when \<^verbatim>\<open>kzalloc\<close> fails, \<^verbatim>\<open>write_attr\<close> returns \<^verbatim>\<open>-ENOMEM\<close> and
  \<^verbatim>\<open>usb_control_msg\<close> is not called.
\<close>

theorem write_attr_alloc_failure:
  assumes "\<not> kzalloc_ok k"
  shows "\<exists>trace. write_attr attr_id k buf 3 = Some (Inr (- ENOMEM, trace)) \<and>
           (\<forall>bytes. UsbControlMsg bytes \<notin> set trace)"
  using assms by (simp add: write_attr_def)

theorem write_attr_alloc_failure_witness:
  "\<not> kzalloc_ok \<lparr>kzalloc_ok = False, random_byte = 7, usb_control_msg = \<lambda>_. 89\<rparr> \<and>
   (\<exists>trace.
      write_attr ATTR_LOGO_COLOR \<lparr>kzalloc_ok = False, random_byte = 7, usb_control_msg = \<lambda>_. 89\<rparr>
        [0x10, 0x20, 0x30] 3 = Some (Inr (- 12, trace)) \<and>
      (\<forall>bytes. UsbControlMsg bytes \<notin> set trace))"
proof -
  let ?k = "\<lparr>kzalloc_ok = False, random_byte = 7, usb_control_msg = \<lambda>_. 89\<rparr>"
  have no: "\<not> kzalloc_ok ?k" by simp
  show ?thesis
    using write_attr_alloc_failure [OF no, of ATTR_LOGO_COLOR "[0x10, 0x20, 0x30]"] no
    by (simp add: ENOMEM_def)
qed

text \<open>
  C5: with three bytes to write and the allocation succeeding, \<^verbatim>\<open>write_attr\<close> returns 3
  exactly when \<^verbatim>\<open>usb_control_msg\<close> returns 89; a negative result of the transfer is
  returned as it is, and a result that is neither negative nor 89 gives \<^verbatim>\<open>-EIO\<close>.
\<close>

theorem write_attr_transfer_result:
  assumes "kzalloc_ok k" "3 \<le> length buf"
  shows "\<exists>report ret.
     build_report attr_id (random_byte k) (buf ! 0) (buf ! 1) (buf ! 2) = Some (Inr report) \<and>
     write_attr attr_id k buf 3 =
       Some (Inr (ret, [Kzalloc, GetRandomBytes, UsbControlMsg (report_bytes report), Kfree])) \<and>
     (ret = 3 \<longleftrightarrow> sint (usb_control_msg k (report_bytes report)) = 89) \<and>
     (sint (usb_control_msg k (report_bytes report)) < 0 \<longrightarrow>
        ret = sint (usb_control_msg k (report_bytes report))) \<and>
     (0 \<le> sint (usb_control_msg k (report_bytes report)) \<and>
      sint (usb_control_msg k (report_bytes report)) \<noteq> 89 \<longrightarrow> ret = - EIO)"
proof -
  obtain report where
    b: "build_report attr_id (random_byte k) (buf ! 0) (buf ! 1) (buf ! 2) = Some (Inr report)"
    using build_report_eq by blast
  let ?rc = "sint (usb_control_msg k (report_bytes report))"
  let ?ret = "if ?rc = 89 then 3 else if ?rc < 0 then ?rc else - EIO"
  have w: "write_attr attr_id k buf 3 =
      Some (Inr (?ret, [Kzalloc, GetRandomBytes, UsbControlMsg (report_bytes report), Kfree]))"
    by (rule write_attr_sends [OF assms b])
  have "(?ret = 3 \<longleftrightarrow> ?rc = 89) \<and> (?rc < 0 \<longrightarrow> ?ret = ?rc) \<and>
        (0 \<le> ?rc \<and> ?rc \<noteq> 89 \<longrightarrow> ?ret = - EIO)"
    by (simp add: EIO_def)
  with b w show ?thesis by blast
qed

theorem write_attr_transfer_result_witness:
  "map_option (map_sum id fst) (write_attr ATTR_LOGO_COLOR
      \<lparr>kzalloc_ok = True, random_byte = 7, usb_control_msg = \<lambda>_. 89\<rparr> [0x10, 0x20, 0x30] 3) =
     Some (Inr 3) \<and>
   map_option (map_sum id fst) (write_attr ATTR_LOGO_COLOR
      \<lparr>kzalloc_ok = True, random_byte = 7, usb_control_msg = \<lambda>_. - 19\<rparr> [0x10, 0x20, 0x30] 3) =
     Some (Inr (- 19)) \<and>
   map_option (map_sum id fst) (write_attr ATTR_LOGO_COLOR
      \<lparr>kzalloc_ok = True, random_byte = 7, usb_control_msg = \<lambda>_. 88\<rparr> [0x10, 0x20, 0x30] 3) =
     Some (Inr (- 5))"
proof -
  have "map_option (map_sum id fst) (write_attr ATTR_LOGO_COLOR
      \<lparr>kzalloc_ok = True, random_byte = 7, usb_control_msg = \<lambda>_. 89\<rparr> [0x10, 0x20, 0x30] 3) =
     Some (Inr 3)"
    using write_attr_transfer_result
      [of "\<lparr>kzalloc_ok = True, random_byte = 7, usb_control_msg = \<lambda>_. 89\<rparr>"
          "[0x10, 0x20, 0x30]" ATTR_LOGO_COLOR]
    by auto
  moreover
  have "map_option (map_sum id fst) (write_attr ATTR_LOGO_COLOR
      \<lparr>kzalloc_ok = True, random_byte = 7, usb_control_msg = \<lambda>_. - 19\<rparr> [0x10, 0x20, 0x30] 3) =
     Some (Inr (- 19))"
    using write_attr_transfer_result
      [of "\<lparr>kzalloc_ok = True, random_byte = 7, usb_control_msg = \<lambda>_. - 19\<rparr>"
          "[0x10, 0x20, 0x30]" ATTR_LOGO_COLOR]
    by auto
  moreover
  have "map_option (map_sum id fst) (write_attr ATTR_LOGO_COLOR
      \<lparr>kzalloc_ok = True, random_byte = 7, usb_control_msg = \<lambda>_. 88\<rparr> [0x10, 0x20, 0x30] 3) =
     Some (Inr (- 5))"
    using write_attr_transfer_result
      [of "\<lparr>kzalloc_ok = True, random_byte = 7, usb_control_msg = \<lambda>_. 88\<rparr>"
          "[0x10, 0x20, 0x30]" ATTR_LOGO_COLOR]
    by (auto simp: EIO_def)
  ultimately show ?thesis by simp
qed

text \<open>
  C7: in every run of \<^verbatim>\<open>write_attr\<close> that builds a report, both the report handed to
  \<^verbatim>\<open>report_crc\<close> and the report handed to \<^verbatim>\<open>usb_control_msg\<close> have \<open>status\<close>,
  \<open>remaining_packets\<close>, \<open>protocol_type\<close> and \<open>reserved\<close> equal to 0, \<open>args_len\<close> equal
  to 5, and \<open>args[5]\<close> to \<open>args[79]\<close> equal to 0.
\<close>

theorem built_report_invariant:
  assumes "kzalloc_ok k" "3 \<le> length buf"
  shows "\<exists>ret c.
     (let filled = fill_report attr_id (random_byte k) (buf ! 0) (buf ! 1) (buf ! 2);
          sent = filled\<lparr>crc := c\<rparr>
      in report_crc (report_bytes filled) sizeof_report = Some (Inr c) \<and>
         write_attr attr_id k buf 3 =
           Some (Inr (ret, [Kzalloc, GetRandomBytes, UsbControlMsg (report_bytes sent), Kfree])) \<and>
         (\<forall>report \<in> {filled, sent}.
            status report = 0 \<and> remaining_packets report = 0 \<and> protocol_type report = 0 \<and>
            reserved report = 0 \<and> args_len report = 5 \<and> length (args report) = 80 \<and>
            (\<forall>j. 5 \<le> j \<and> j < 80 \<longrightarrow> args report ! j = 0)))"
proof -
  let ?filled = "fill_report attr_id (random_byte k) (buf ! 0) (buf ! 1) (buf ! 2)"
  let ?c = "xor_window (report_bytes ?filled) 2 87"
  have crc: "report_crc (report_bytes ?filled) sizeof_report = Some (Inr ?c)"
    by (simp add: report_crc_89 length_report_bytes length_args_fill_report)
  obtain ret where w: "write_attr attr_id k buf 3 =
      Some (Inr (ret, [Kzalloc, GetRandomBytes,
        UsbControlMsg (report_bytes (?filled\<lparr>crc := ?c\<rparr>)), Kfree]))"
    using write_attr_built [OF assms, of attr_id] by blast
  have tail: "([1, word_of_int attr_id, buf ! 0, buf ! 1, buf ! 2] @ replicate 75 (0 :: u8)) ! j = 0"
    if "5 \<le> j" "j < 80" for j
    using that by (simp add: nth_append)
  have inv: "status report = 0 \<and> remaining_packets report = 0 \<and> protocol_type report = 0 \<and>
            reserved report = 0 \<and> args_len report = 5 \<and> length (args report) = 80 \<and>
            (\<forall>j. 5 \<le> j \<and> j < 80 \<longrightarrow> args report ! j = 0)"
    if "report \<in> {?filled, ?filled\<lparr>crc := ?c\<rparr>}" for report
    using that tail by (auto simp: fill_report_eq)
  show ?thesis
    unfolding Let_def using crc w inv by blast
qed

theorem built_report_invariant_witness:
  "kzalloc_ok \<lparr>kzalloc_ok = True, random_byte = 0xEE, usb_control_msg = \<lambda>_. 89\<rparr> \<and>
   3 \<le> length [0xFF :: u8, 0xFF, 0xFF] \<and>
   (\<exists>ret c.
     (let filled = fill_report ATTR_WHEEL_COLOR
            (random_byte \<lparr>kzalloc_ok = True, random_byte = 0xEE, usb_control_msg = \<lambda>_. 89\<rparr>)
            ([0xFF, 0xFF, 0xFF] ! 0) ([0xFF, 0xFF, 0xFF] ! 1) ([0xFF, 0xFF, 0xFF] ! 2);
          sent = filled\<lparr>crc := c\<rparr>
      in report_crc (report_bytes filled) sizeof_report = Some (Inr c) \<and>
         write_attr ATTR_WHEEL_COLOR
           \<lparr>kzalloc_ok = True, random_byte = 0xEE, usb_control_msg = \<lambda>_. 89\<rparr>
           [0xFF, 0xFF, 0xFF] 3 =
           Some (Inr (ret, [Kzalloc, GetRandomBytes, UsbControlMsg (report_bytes sent), Kfree])) \<and>
         (\<forall>report \<in> {filled, sent}.
            status report = 0 \<and> remaining_packets report = 0 \<and> protocol_type report = 0 \<and>
            reserved report = 0 \<and> args_len report = 5 \<and> length (args report) = 80 \<and>
            (\<forall>j. 5 \<le> j \<and> j < 80 \<longrightarrow> args report ! j = 0))))"
proof -
  let ?k = "\<lparr>kzalloc_ok = True, random_byte = 0xEE, usb_control_msg = \<lambda>_. 89\<rparr>"
  have ok: "kzalloc_ok ?k" by simp
  have len: "3 \<le> length [0xFF :: u8, 0xFF, 0xFF]" by simp
  from built_report_invariant [OF ok len, of ATTR_WHEEL_COLOR] ok len
  show ?thesis by (intro conjI)
qed


section \<open>The transaction identifier and the checksum\<close>

text \<open>
  The checksum window of a built report holds neither the transaction identifier
  (index 1) nor the stored checksum (index 87).
\<close>

lemma xor_window_fill_report_crc:
  "xor_window (report_bytes ((fill_report attr_id tid r g b)\<lparr>crc := c\<rparr>)) 2 87 =
   xor_window (report_bytes (fill_report attr_id tid' r g b)) 2 87"
  by (simp add: xor_window_report_bytes fill_report_eq)

text \<open>
  C3 says that two built reports which differ only in the transaction identifier have
  different checksums. They do not: the reports built for the logo LED and the colour
  (0x10, 0x20, 0x30) with the identifiers 0x11 and 0x22 differ in byte 1 only, and the
  checksum of both is 2.
\<close>

theorem transaction_id_checksum_counterexample:
  "map_option (map_sum id report_bytes) (build_report ATTR_LOGO_COLOR 0x11 0x10 0x20 0x30) =
     Some (Inr ([0, 0x11, 0, 0, 5, 3, 1, 1, 4, 0x10, 0x20, 0x30] @ replicate 75 0 @ [2, 0])) \<and>
   map_option (map_sum id report_bytes) (build_report ATTR_LOGO_COLOR 0x22 0x10 0x20 0x30) =
     Some (Inr ([0, 0x22, 0, 0, 5, 3, 1, 1, 4, 0x10, 0x20, 0x30] @ replicate 75 0 @ [2, 0])) \<and>
   report_crc ([0, 0x11, 0, 0, 5, 3, 1, 1, 4, 0x10, 0x20, 0x30] @ replicate 75 0 @ [2, 0])
     sizeof_report = Some (Inr 2) \<and>
   report_crc ([0, 0x22, 0, 0, 5, 3, 1, 1, 4, 0x10, 0x20, 0x30] @ replicate 75 0 @ [2, 0])
     sizeof_report = Some (Inr 2)"
proof -
  have x: "xor_window (report_bytes (fill_report ATTR_LOGO_COLOR tid 0x10 0x20 0x30)) 2 87 = 2"
    for tid
    using xor_window_fill_report_crc
      [where attr_id = ATTR_LOGO_COLOR and tid = tid and r = "0x10" and g = "0x20"
         and b = "0x30" and c = 0 and tid' = 0]
    by (simp add: fill_report_eq) code_simp
  have b: "map_option (map_sum id report_bytes)
        (build_report ATTR_LOGO_COLOR tid 0x10 0x20 0x30) =
      Some (Inr ([0, tid, 0, 0, 5, 3, 1, 1, 4, 0x10, 0x20, 0x30] @ replicate 75 0 @ [2, 0]))"
    for tid
    by (simp add: build_report_eq x) (simp add: fill_report_eq report_bytes_def ATTR_LOGO_COLOR_def)
  have c: "report_crc ([0, tid, 0, 0, 5, 3, 1, 1, 4, 0x10, 0x20, 0x30] @ replicate 75 0 @ [2, 0])
     sizeof_report = Some (Inr 2)" for tid :: u8
  proof -
    have "xor_window ([0, tid, 0, 0, 5, 3, 1, 1, 4, 0x10, 0x20, 0x30] @ replicate 75 0 @ [2, 0])
        2 87 = xor_window (([0, 0, 0, 0, 5, 3, 1, 1, 4, 0x10, 0x20, 0x30] @ replicate 75 0 @ [2, 0])) 2 87"
      using xor_window_update_outside
        [of 1 2 87 "[0, 0, 0, 0, 5, 3, 1, 1, 4, 0x10, 0x20, 0x30] @ replicate 75 0 @ [2, 0]" tid]
      by simp
    also have "\<dots> = 2" by code_simp
    finally show ?thesis by (simp add: report_crc_89)
  qed
  show ?thesis using b [of "0x11"] b [of "0x22"] c [of "0x11"] c [of "0x22"] by simp
qed

text \<open>
  C3, amended: two reports built for the same attribute and colour with any two
  transaction identifiers are equal except for the transaction identifier, and their
  checksums are equal, because the transaction identifier (index 1) lies outside the
  checksummed indices 2 to 86. The stored checksum of each is the one
  \<^verbatim>\<open>report_crc\<close> computes on the finished report.
\<close>

theorem transaction_id_outside_checksum:
  "\<exists>report1 report2.
     build_report attr_id tid1 r g b = Some (Inr report1) \<and>
     build_report attr_id tid2 r g b = Some (Inr report2) \<and>
     report2 = report1\<lparr>transaction_id := tid2\<rparr> \<and>
     crc report1 = crc report2 \<and>
     report_crc (report_bytes report1) sizeof_report = Some (Inr (crc report1)) \<and>
     report_crc (report_bytes report2) sizeof_report = Some (Inr (crc report2))"
proof -
  let ?r1 = "(fill_report attr_id tid1 r g b)
       \<lparr>crc := xor_window (report_bytes (fill_report attr_id tid1 r g b)) 2 87\<rparr>"
  let ?r2 = "(fill_report attr_id tid2 r g b)
       \<lparr>crc := xor_window (report_bytes (fill_report attr_id tid2 r g b)) 2 87\<rparr>"
  have same: "xor_window (report_bytes (fill_report attr_id tid2 r g b)) 2 87 =
      xor_window (report_bytes (fill_report attr_id tid1 r g b)) 2 87"
    using xor_window_fill_report_crc
      [where attr_id = attr_id and tid = tid2 and r = r and g = g and b = b and c = 0
         and tid' = tid1]
    by (simp add: fill_report_eq)
  have eq: "?r2 = ?r1\<lparr>transaction_id := tid2\<rparr>"
    by (simp add: same) (simp add: fill_report_eq)
  have crcs: "crc ?r1 = crc ?r2"
    by (simp add: same)
  have len: "length (report_bytes ?r1) = 89" "length (report_bytes ?r2) = 89"
    by (simp_all add: length_report_bytes length_args_fill_report)
  have c1: "report_crc (report_bytes ?r1) sizeof_report = Some (Inr (crc ?r1))"
    using len by (simp add: report_crc_89 xor_window_fill_report_crc)
  have c2: "report_crc (report_bytes ?r2) sizeof_report = Some (Inr (crc ?r2))"
    using len by (simp add: report_crc_89 xor_window_fill_report_crc)
  show ?thesis
    using build_report_eq [of attr_id tid1 r g b] build_report_eq [of attr_id tid2 r g b]
      eq crcs c1 c2
    by blast
qed

end
